theory Spec2Isabelle
  imports Complex_Main "HOL-Library.Sublist" "HOL-Library.Log_Nat"
begin

section \<open>Text: the string operations of the analyser\<close>

text \<open>
  A line of a statement is a \<^typ>\<open>string\<close>: a list of 8-bit characters, read as the code
  points 0 to 255. The character classes below are the ones Python's \<^verbatim>\<open>str\<close> methods
  and its \<^verbatim>\<open>re\<close> module use on those code points.
\<close>

definition code_point :: "char \<Rightarrow> nat" where
  "code_point c = of_char c"

text \<open>\<^verbatim>\<open>str.isspace\<close>, the characters \<^verbatim>\<open>str.strip()\<close> and \<^verbatim>\<open>str.split()\<close> remove, and \<^verbatim>\<open>\s\<close>.\<close>

definition isspace :: "char \<Rightarrow> bool" where
  "isspace c = (let n = code_point c in
     (9 \<le> n \<and> n \<le> 13) \<or> (28 \<le> n \<and> n \<le> 32) \<or> n = 133 \<or> n = 160)"

text \<open>The decimal digits: \<^verbatim>\<open>\d\<close>.\<close>

definition isdecimal :: "char \<Rightarrow> bool" where
  "isdecimal c = (let n = code_point c in 48 \<le> n \<and> n \<le> 57)"

text \<open>The word characters: \<^verbatim>\<open>\w\<close> (alphanumeric, or the underscore).\<close>

definition isword :: "char \<Rightarrow> bool" where
  "isword c = (let n = code_point c in
     (48 \<le> n \<and> n \<le> 57) \<or> (65 \<le> n \<and> n \<le> 90) \<or> n = 95 \<or> (97 \<le> n \<and> n \<le> 122) \<or>
     n = 170 \<or> n = 178 \<or> n = 179 \<or> n = 181 \<or> n = 185 \<or> n = 186 \<or>
     (188 \<le> n \<and> n \<le> 190) \<or> (192 \<le> n \<and> n \<le> 214) \<or> (216 \<le> n \<and> n \<le> 246) \<or>
     (248 \<le> n \<and> n \<le> 255))"

text \<open>\<^verbatim>\<open>str.lower()\<close>, character by character.\<close>

definition lower_char :: "char \<Rightarrow> char" where
  "lower_char c = (let n = code_point c in
     if (65 \<le> n \<and> n \<le> 90) \<or> (192 \<le> n \<and> n \<le> 214) \<or> (216 \<le> n \<and> n \<le> 222)
     then char_of (n + 32) else c)"

definition lower :: "string \<Rightarrow> string" where
  "lower s = map lower_char s"

text \<open>\<^verbatim>\<open>needle in hay\<close>: the needle occurs as a contiguous piece of the text.\<close>

fun contains :: "string \<Rightarrow> string \<Rightarrow> bool" where
  "contains needle [] = (needle = [])"
| "contains needle (c # cs) = (prefix needle (c # cs) \<or> contains needle cs)"

text \<open>
  A search that ignores case (\<^verbatim>\<open>case=False\<close>, that is \<^verbatim>\<open>re.IGNORECASE\<close>): two
  characters agree when their lower-case forms do.
\<close>

definition contains_ci :: "string \<Rightarrow> string \<Rightarrow> bool" where
  "contains_ci needle hay = contains (lower needle) (lower hay)"

text \<open>\<^verbatim>\<open>str.strip()\<close>.\<close>

definition strip :: "string \<Rightarrow> string" where
  "strip s = rev (dropWhile isspace (rev (dropWhile isspace s)))"

text \<open>
  \<^verbatim>\<open>str.split()\<close>: the maximal runs of characters that are not blank; \<open>word\<close> is the run
  being read.
\<close>

fun split_from :: "string \<Rightarrow> string \<Rightarrow> string list" where
  "split_from word [] = (if word = [] then [] else [word])"
| "split_from word (c # cs) =
     (if isspace c then (if word = [] then split_from [] cs else word # split_from [] cs)
      else split_from (word @ [c]) cs)"

definition split :: "string \<Rightarrow> string list" where
  "split s = split_from [] s"

text \<open>\<^verbatim>\<open>sep.join(parts)\<close>.\<close>

fun join :: "string \<Rightarrow> string list \<Rightarrow> string" where
  "join sep [] = []"
| "join sep [x] = x"
| "join sep (x # y # ys) = x @ sep @ join sep (y # ys)"

text \<open>
  \<^verbatim>\<open>Series.str.replace(needle, "", case=False)\<close> with a needle free of regex operators:
  every occurrence of the needle, found from the left and ignoring case, is removed.
\<close>

function remove_ci :: "string \<Rightarrow> string \<Rightarrow> string" where
  "remove_ci needle [] = []"
| "remove_ci needle (c # cs) =
     (if needle \<noteq> [] \<and> prefix (lower needle) (lower (c # cs))
      then remove_ci needle (drop (length needle) (c # cs))
      else c # remove_ci needle cs)"
  by pat_completeness auto
termination
  by (relation "measure (\<lambda>(needle, s). length s)") auto

section \<open>The format detector\<close>

text \<open>
  \<^verbatim>\<open>detect_statement_format(lines)\<close>. The tags are the strings the code returns and later
  compares with.
\<close>

definition detect_statement_format :: "string list \<Rightarrow> string" where
  "detect_statement_format lines =
     (if list_ex (\<lambda>line. contains ''Commonwealth Bank of Australia'' line) lines
      then ''commonwealth_bank''
      else if list_ex (\<lambda>line. contains ''TRANS. POST'' line) lines
      then ''credit_card''
      else if list_ex (\<lambda>line. contains ''OpeningBalance'' line) lines
      then ''debit_card''
      else ''credit_card'')"

section \<open>The patterns of the line parsers\<close>

text \<open>
  The three patterns use one fragment of the regular expressions of \<^verbatim>\<open>re\<close>: a sequence
  of character classes, each repeated between a least and a greatest number of times,
  greedily or lazily, with capture groups around parts of the sequence and \<^verbatim>\<open>$\<close> at the
  end. A pattern is the list of its nodes.
\<close>

datatype cls = Digit | Word | Space | AnyChar | DigitOrComma | Lit char

fun in_cls :: "cls \<Rightarrow> char \<Rightarrow> bool" where
  "in_cls Digit c = isdecimal c"
| "in_cls Word c = isword c"
| "in_cls Space c = isspace c"
| "in_cls AnyChar c = (c \<noteq> CHR 0x0A)"
| "in_cls DigitOrComma c = (isdecimal c \<or> c = CHR '','')"
| "in_cls (Lit l) c = (c = l)"

text \<open>
  \<open>Rep k lo hi greedy\<close>: the class \<open>k\<close>, at least \<open>lo\<close> times and at most \<open>hi\<close> times
  (\<open>None\<close>: any number of times).
\<close>

datatype node = Rep cls nat "nat option" bool | GroupOpen | GroupClose | EndAnchor

abbreviation one :: "cls \<Rightarrow> node" where
  "one k \<equiv> Rep k 1 (Some 1) True"

abbreviation plus_of :: "cls \<Rightarrow> node" where
  "plus_of k \<equiv> Rep k 1 None True"

abbreviation times :: "nat \<Rightarrow> nat \<Rightarrow> cls \<Rightarrow> node" where
  "times lo hi k \<equiv> Rep k lo (Some hi) True"

abbreviation lazy_star :: "cls \<Rightarrow> node" where
  "lazy_star k \<equiv> Rep k 0 None False"

text \<open>
  The groups captured so far, the latest first, and whether the latest is still open: a
  character consumed inside an open group is added to it.
\<close>

type_synonym captures = "string list \<times> bool"

fun consume :: "char \<Rightarrow> captures \<Rightarrow> captures" where
  "consume c (g # gs, True) = ((g @ [c]) # gs, True)"
| "consume c caps = caps"

fun one_less :: "nat option \<Rightarrow> nat option" where
  "one_less None = None"
| "one_less (Some n) = Some (n - 1)"

text \<open>
  The backtracking matcher: \<open>run nodes s caps\<close> matches the nodes at the start of \<open>s\<close> and
  returns the groups of the first match in the order \<^verbatim>\<open>re\<close> tries them: a greedy
  repetition takes one more character before it tries the rest of the pattern, a lazy one
  tries the rest of the pattern first. \<^verbatim>\<open>$\<close> matches at the end of the text and before a
  newline that ends it.
\<close>

function run :: "node list \<Rightarrow> string \<Rightarrow> captures \<Rightarrow> string list option" where
  "run [] s (gs, opened) = Some (rev gs)"
| "run (GroupOpen # nodes) s (gs, opened) = run nodes s ([] # gs, True)"
| "run (GroupClose # nodes) s (gs, opened) = run nodes s (gs, False)"
| "run (EndAnchor # nodes) s caps =
     (if s = [] \<or> s = [CHR 0x0A] then run nodes s caps else None)"
| "run (Rep k lo hi greedy # nodes) [] caps =
     (if 0 < lo then None else run nodes [] caps)"
| "run (Rep k lo hi greedy # nodes) (c # cs) caps =
     (if 0 < lo then
        (if in_cls k c then run (Rep k (lo - 1) (one_less hi) greedy # nodes) cs (consume c caps)
         else None)
      else if hi = Some 0 \<or> \<not> in_cls k c then run nodes (c # cs) caps
      else if greedy then
        (case run (Rep k 0 (one_less hi) greedy # nodes) cs (consume c caps) of
           Some groups \<Rightarrow> Some groups
         | None \<Rightarrow> run nodes (c # cs) caps)
      else
        (case run nodes (c # cs) caps of
           Some groups \<Rightarrow> Some groups
         | None \<Rightarrow> run (Rep k 0 (one_less hi) greedy # nodes) cs (consume c caps)))"
  by pat_completeness auto
termination
  by (relation "measures [\<lambda>(nodes, s, caps). length s, \<lambda>(nodes, s, caps). length nodes]") auto

text \<open>\<^verbatim>\<open>re.match(pattern, line)\<close> followed by \<^verbatim>\<open>match.groups()\<close>; \<open>None\<close>: no match.\<close>

definition re_match :: "node list \<Rightarrow> string \<Rightarrow> string list option" where
  "re_match pattern line = run pattern line ([], False)"

text \<open>The group \<^verbatim>\<open>([\d,]+\.\d{2})\<close> that ends all three patterns.\<close>

definition decimal_group :: "node list" where
  "decimal_group =
     [GroupOpen, plus_of DigitOrComma, one (Lit (CHR ''.'')), times 2 2 Digit, GroupClose]"

text \<open>\<^verbatim>\<open>(\d{1,2} \w{3})\s+(.*?)\s+([\d,]+\.\d{2})\s+([\d,]+\.\d{2})$\<close>\<close>

definition commonwealth_bank_pattern :: "node list" where
  "commonwealth_bank_pattern =
     [GroupOpen, times 1 2 Digit, one (Lit (CHR '' '')), times 3 3 Word, GroupClose,
      plus_of Space, GroupOpen, lazy_star AnyChar, GroupClose, plus_of Space]
     @ decimal_group @ [plus_of Space] @ decimal_group @ [EndAnchor]"

text \<open>\<^verbatim>\<open>(\d{3})\s+(\w{3} \d{1,2})\s+(\w{3} \d{1,2})\s+(.*?)\s+([\d,]+\.\d{2})$\<close>\<close>

definition credit_card_pattern :: "node list" where
  "credit_card_pattern =
     [GroupOpen, times 3 3 Digit, GroupClose, plus_of Space,
      GroupOpen, times 3 3 Word, one (Lit (CHR '' '')), times 1 2 Digit, GroupClose, plus_of Space,
      GroupOpen, times 3 3 Word, one (Lit (CHR '' '')), times 1 2 Digit, GroupClose, plus_of Space,
      GroupOpen, lazy_star AnyChar, GroupClose, plus_of Space]
     @ decimal_group @ [EndAnchor]"

text \<open>\<^verbatim>\<open>(\w{3}\d{1,2})\s+(.*?)\s+([\d,]+\.\d{2})\s+([\d,]+\.\d{2})$\<close>\<close>

definition debit_card_pattern :: "node list" where
  "debit_card_pattern =
     [GroupOpen, times 3 3 Word, times 1 2 Digit, GroupClose,
      plus_of Space, GroupOpen, lazy_star AnyChar, GroupClose, plus_of Space]
     @ decimal_group @ [plus_of Space] @ decimal_group @ [EndAnchor]"

section \<open>The line parsers\<close>

text \<open>A raw transaction is the tuple \<^verbatim>\<open>(date, description, amount)\<close> of three texts.\<close>

type_synonym raw = "string \<times> string \<times> string"

text \<open>
  What a line that matches starts, per format: the \<^verbatim>\<open>if match:\<close> branch of each parser,
  from \<^verbatim>\<open>match.groups()\<close> to the new \<^verbatim>\<open>current_transaction\<close>.
\<close>

definition commonwealth_bank_start :: "string \<Rightarrow> raw option" where
  "commonwealth_bank_start line =
     (case re_match commonwealth_bank_pattern line of
        Some [date, description, debit, credit] \<Rightarrow>
          Some (date, description, if debit \<noteq> [] then debit else ''-'' @ credit)
      | _ \<Rightarrow> None)"

definition credit_card_start :: "string \<Rightarrow> raw option" where
  "credit_card_start line =
     (case re_match credit_card_pattern line of
        Some [ref_num, trans_date, post_date, details, amount] \<Rightarrow>
          Some (trans_date, details, amount)
      | _ \<Rightarrow> None)"

definition debit_card_start :: "string \<Rightarrow> raw option" where
  "debit_card_start line =
     (case re_match debit_card_pattern line of
        Some [date, transaction_type, amount, balance] \<Rightarrow>
          Some (date, transaction_type, amount)
      | _ \<Rightarrow> None)"

text \<open>
  The body of the \<^verbatim>\<open>for line in lines\<close> loop, the same in the three parsers: the state
  is the list \<^verbatim>\<open>transactions\<close> and \<^verbatim>\<open>current_transaction\<close> (\<open>None\<close> as in the code).
\<close>

definition parse_step :: "(string \<Rightarrow> raw option) \<Rightarrow> string \<Rightarrow> raw list \<times> raw option \<Rightarrow> raw list \<times> raw option" where
  "parse_step start line state =
     (case state of (transactions, current_transaction) \<Rightarrow>
        (case start line of
           Some new_transaction \<Rightarrow>
             ((case current_transaction of
                 Some t \<Rightarrow> transactions @ [t]
               | None \<Rightarrow> transactions),
              Some new_transaction)
         | None \<Rightarrow>
             (case current_transaction of
                Some (date, description, amount) \<Rightarrow>
                  (transactions, Some (date, description @ '' '' @ strip line, amount))
              | None \<Rightarrow> (transactions, None))))"

text \<open>The loop, then \<^verbatim>\<open>if current_transaction: transactions.append(current_transaction)\<close>.\<close>

definition parse_lines :: "(string \<Rightarrow> raw option) \<Rightarrow> string list \<Rightarrow> raw list" where
  "parse_lines start lines =
     (case fold (parse_step start) lines ([], None) of
        (transactions, Some t) \<Rightarrow> transactions @ [t]
      | (transactions, None) \<Rightarrow> transactions)"

definition parse_commonwealth_bank_transactions :: "string list \<Rightarrow> raw list" where
  "parse_commonwealth_bank_transactions lines = parse_lines commonwealth_bank_start lines"

definition parse_credit_card_transactions :: "string list \<Rightarrow> raw list" where
  "parse_credit_card_transactions lines = parse_lines credit_card_start lines"

definition parse_debit_card_transactions :: "string list \<Rightarrow> raw list" where
  "parse_debit_card_transactions lines = parse_lines debit_card_start lines"

section \<open>The normalizer\<close>

subsection \<open>Amounts\<close>

text \<open>
  A value of a float column: a finite float64, given as the rational number it is, or an
  infinity. The missing value NaN is \<open>None\<close>.
\<close>

datatype float64 = Finite rat | PosInf | NegInf

text \<open>
  The float64 nearest to a rational number, with 53 bits of mantissa and ties going to
  the even mantissa; an infinity when the rounded magnitude is beyond the largest
  float64, and the subnormal numbers below the least exponent.
\<close>

definition floor_log2 :: "rat \<Rightarrow> int" where
  "floor_log2 a =
     (case quotient_of a of (p, q) \<Rightarrow>
        (let e = bitlen p - bitlen q in if 2 powi e \<le> a then e else e - 1))"

definition round_half_even :: "rat \<Rightarrow> int" where
  "round_half_even r =
     (let n = \<lfloor>r\<rfloor>; d = r - of_int n in
      if d < 1 / 2 then n else if 1 / 2 < d then n + 1 else if even n then n else n + 1)"

definition float64_of :: "rat \<Rightarrow> float64" where
  "float64_of q =
     (if q = 0 then Finite 0
      else
        (let a = \<bar>q\<bar>;
             e = max (floor_log2 a) (- 1022);
             ulp = 2 powi (e - 52);
             v = of_int (round_half_even (a / ulp)) * ulp
         in if 2 powi 1024 \<le> v then (if 0 < q then PosInf else NegInf)
            else Finite (if 0 < q then v else - v)))"

text \<open>
  \<^verbatim>\<open>pd.to_numeric(..., errors='coerce')\<close> on a text. A numeral is read as the parser of
  pandas reads it: blanks, an optional sign, digits with an optional decimal point (at
  least one digit), an optional exponent (\<^verbatim>\<open>e\<close> or \<^verbatim>\<open>E\<close>, an optional sign, digits),
  blanks, and nothing more; its value is rounded to float64. The spellings of infinity
  (\<^verbatim>\<open>inf\<close>, \<^verbatim>\<open>infinity\<close>, with an optional sign, in any case) give an infinity. Every
  other text is coerced to NaN. The column is read as a column of floats, as it is
  whenever one of its texts has a decimal point, which every amount of the three patterns
  has.
\<close>

definition ascii_space :: "char \<Rightarrow> bool" where
  "ascii_space c = (let n = code_point c in (9 \<le> n \<and> n \<le> 13) \<or> n = 32)"

definition digit_value :: "char \<Rightarrow> nat" where
  "digit_value c = code_point c - 48"

definition nat_of_digits :: "string \<Rightarrow> nat" where
  "nat_of_digits ds = foldl (\<lambda>n c. 10 * n + digit_value c) 0 ds"

text \<open>An optional sign: whether it is a minus, and the text after it.\<close>

fun sign_part :: "string \<Rightarrow> bool \<times> string" where
  "sign_part [] = (False, [])"
| "sign_part (c # cs) =
     (if c = CHR ''-'' then (True, cs) else if c = CHR ''+'' then (False, cs)
      else (False, c # cs))"

text \<open>An optional decimal point with the digits after it, and the text after them.\<close>

fun fraction_part :: "string \<Rightarrow> string \<times> string" where
  "fraction_part [] = ([], [])"
| "fraction_part (c # cs) =
     (if c = CHR ''.'' then (takeWhile isdecimal cs, dropWhile isdecimal cs)
      else ([], c # cs))"

text \<open>
  An optional exponent and the text after it; an \<^verbatim>\<open>e\<close> that no digit follows is not an
  exponent and stays in the text.
\<close>

fun exponent_part :: "string \<Rightarrow> int \<times> string" where
  "exponent_part [] = (0, [])"
| "exponent_part (c # cs) =
     (if c = CHR ''e'' \<or> c = CHR ''E'' then
        (case sign_part cs of (negative, s) \<Rightarrow>
           (let ds = takeWhile isdecimal s in
            if ds = [] then (0, c # cs)
            else (if negative then - int (nat_of_digits ds) else int (nat_of_digits ds),
                  dropWhile isdecimal s)))
      else (0, c # cs))"

definition parse_double :: "string \<Rightarrow> rat option" where
  "parse_double s =
     (case sign_part (dropWhile ascii_space s) of (negative, s1) \<Rightarrow>
        (let whole = takeWhile isdecimal s1 in
         case fraction_part (dropWhile isdecimal s1) of (cents, s2) \<Rightarrow>
           (case exponent_part s2 of (e, s3) \<Rightarrow>
              if whole = [] \<and> cents = [] then None
              else if dropWhile ascii_space s3 \<noteq> [] then None
              else Some ((if negative then - 1 else 1) * of_nat (nat_of_digits (whole @ cents))
                         * 10 powi (e - int (length cents))))))"

definition infinity_spelling :: "string \<Rightarrow> float64 option" where
  "infinity_spelling s =
     (let l = lower s in
      if l = ''inf'' \<or> l = ''+inf'' \<or> l = ''infinity'' \<or> l = ''+infinity'' then Some PosInf
      else if l = ''-inf'' \<or> l = ''-infinity'' then Some NegInf
      else None)"

definition to_numeric :: "string \<Rightarrow> float64 option" where
  "to_numeric s =
     (case parse_double s of
        Some q \<Rightarrow> Some (float64_of q)
      | None \<Rightarrow> infinity_spelling s)"

text \<open>\<^verbatim>\<open>.str.replace(",", "")\<close>.\<close>

definition remove_commas :: "string \<Rightarrow> string" where
  "remove_commas s = filter (\<lambda>c. c \<noteq> CHR '','') s"

subsection \<open>Dates\<close>

text \<open>
  \<^verbatim>\<open>pd.to_datetime(..., format=..., errors="coerce")\<close> follows \<^verbatim>\<open>strptime\<close>: \<^verbatim>\<open>%b\<close> is an
  abbreviated English month name in any case, \<^verbatim>\<open>%d\<close> a day from 1 to 31 of one or two
  characters, a blank of the format stands for one or more blanks of the text, the whole
  text has to be used up, and the day has to exist in that month of the year 1900, which
  stands in when the format has no year. \<open>None\<close> is the null date NaT.
\<close>

record timestamp =
  year :: nat
  month :: nat
  day :: nat

datatype directive = Pct_d | Pct_b | Blank

definition month_names :: "(nat \<times> string) list" where
  "month_names =
     [(1, ''jan''), (2, ''feb''), (3, ''mar''), (4, ''apr''), (5, ''may''), (6, ''jun''),
      (7, ''jul''), (8, ''aug''), (9, ''sep''), (10, ''oct''), (11, ''nov''), (12, ''dec'')]"

definition strptime_month :: "string \<Rightarrow> (nat \<times> string) option" where
  "strptime_month s =
     (case find (\<lambda>(n, name). prefix name (lower s)) month_names of
        Some (n, name) \<Rightarrow> Some (n, drop (length name) s)
      | None \<Rightarrow> None)"

definition nonzero_digit :: "char \<Rightarrow> bool" where
  "nonzero_digit c = (isdecimal c \<and> c \<noteq> CHR ''0'')"

text \<open>The alternatives of \<^verbatim>\<open>%d\<close>, in the order \<^verbatim>\<open>3[0-1]|[1-2]\d|0[1-9]|[1-9]| [1-9]\<close>.\<close>

fun strptime_day :: "string \<Rightarrow> (nat \<times> string) option" where
  "strptime_day [] = None"
| "strptime_day [a] = (if nonzero_digit a then Some (digit_value a, []) else None)"
| "strptime_day (a # b # rest) =
     (if a = CHR ''3'' \<and> (b = CHR ''0'' \<or> b = CHR ''1'') then Some (30 + digit_value b, rest)
      else if (a = CHR ''1'' \<or> a = CHR ''2'') \<and> isdecimal b
      then Some (10 * digit_value a + digit_value b, rest)
      else if a = CHR ''0'' \<and> nonzero_digit b then Some (digit_value b, rest)
      else if nonzero_digit a then Some (digit_value a, b # rest)
      else if a = CHR '' '' \<and> nonzero_digit b then Some (digit_value b, rest)
      else None)"

definition strptime_blank :: "string \<Rightarrow> string option" where
  "strptime_blank s = (if s \<noteq> [] \<and> isspace (hd s) then Some (dropWhile isspace s) else None)"

text \<open>\<open>strptime format s (m, d)\<close>: the month and the day read so far.\<close>

fun strptime :: "directive list \<Rightarrow> string \<Rightarrow> nat option \<times> nat option \<Rightarrow> (nat option \<times> nat option) option" where
  "strptime [] s found = (if s = [] then Some found else None)"
| "strptime (Pct_d # format) s (m, d) =
     (case strptime_day s of
        Some (v, rest) \<Rightarrow> strptime format rest (m, Some v)
      | None \<Rightarrow> None)"
| "strptime (Pct_b # format) s (m, d) =
     (case strptime_month s of
        Some (v, rest) \<Rightarrow> strptime format rest (Some v, d)
      | None \<Rightarrow> None)"
| "strptime (Blank # format) s found =
     (case strptime_blank s of
        Some rest \<Rightarrow> strptime format rest found
      | None \<Rightarrow> None)"

definition days_in_month :: "nat \<Rightarrow> nat" where
  "days_in_month m = (if m = 2 then 28 else if m = 4 \<or> m = 6 \<or> m = 9 \<or> m = 11 then 30 else 31)"

definition to_datetime :: "directive list \<Rightarrow> string \<Rightarrow> timestamp option" where
  "to_datetime format s =
     (case strptime format s (None, None) of
        Some (Some m, Some d) \<Rightarrow>
          (if d \<le> days_in_month m then Some \<lparr>year = 1900, month = m, day = d\<rparr> else None)
      | _ \<Rightarrow> None)"

text \<open>The formats \<^verbatim>\<open>"%d %b"\<close> and \<^verbatim>\<open>"%b %d"\<close>.\<close>

definition day_month :: "directive list" where
  "day_month = [Pct_d, Blank, Pct_b]"

definition month_day :: "directive list" where
  "month_day = [Pct_b, Blank, Pct_d]"

subsection \<open>The table of transactions\<close>

text \<open>
  A row of the data frame with the columns \<^verbatim>\<open>Date\<close>, \<^verbatim>\<open>Description\<close> and \<^verbatim>\<open>Amount\<close>. The
  columns \<^verbatim>\<open>Date\<close> and \<^verbatim>\<open>Amount\<close> hold texts first and parsed values later, so their types
  are parameters; a data frame is the list of its rows, in their order.
\<close>

record ('d, 'a) row =
  Date :: 'd
  Description :: string
  Amount :: 'a

definition DataFrame :: "raw list \<Rightarrow> (string, string) row list" where
  "DataFrame transactions =
     map (\<lambda>(date, description, amount).
       \<lparr>Date = date, Description = description, Amount = amount\<rparr>) transactions"

text \<open>\<^verbatim>\<open>df[column] = f(df[column])\<close> for an operation \<open>f\<close> that works value by value.\<close>

definition assign_Amount :: "('a \<Rightarrow> 'b) \<Rightarrow> ('d, 'a) row list \<Rightarrow> ('d, 'b) row list" where
  "assign_Amount f df =
     map (\<lambda>r. \<lparr>Date = Date r, Description = Description r, Amount = f (Amount r)\<rparr>) df"

definition assign_Date :: "('d \<Rightarrow> 'e) \<Rightarrow> ('d, 'a) row list \<Rightarrow> ('e, 'a) row list" where
  "assign_Date f df =
     map (\<lambda>r. \<lparr>Date = f (Date r), Description = Description r, Amount = Amount r\<rparr>) df"

definition assign_Description :: "(string \<Rightarrow> string) \<Rightarrow> ('d, 'a) row list \<Rightarrow> ('d, 'a) row list" where
  "assign_Description f df =
     map (\<lambda>r. \<lparr>Date = Date r, Description = f (Description r), Amount = Amount r\<rparr>) df"

text \<open>
  \<^verbatim>\<open>.str.contains("A|B|...", case=False)\<close>: one of the alternatives occurs in the text,
  ignoring case.
\<close>

definition str_contains :: "string list \<Rightarrow> string \<Rightarrow> bool" where
  "str_contains alternatives s = list_ex (\<lambda>a. contains_ci a s) alternatives"

text \<open>\<^verbatim>\<open>lambda x: " ".join(x.split()[:3])\<close>.\<close>

definition first_three_words :: "string \<Rightarrow> string" where
  "first_three_words x = join '' '' (take 3 (split x))"

text \<open>\<^verbatim>\<open>normalize_transactions(transactions, statement_format)\<close>, statement by statement.\<close>

definition normalize_transactions :: "raw list \<Rightarrow> string \<Rightarrow> (timestamp option, float64 option) row list" where
  "normalize_transactions transactions statement_format =
     (let df = DataFrame transactions;
          df = assign_Amount remove_commas df;
          df = assign_Amount to_numeric df;
          df = filter (\<lambda>r. Amount r \<noteq> None) df;
          df = (if statement_format = ''commonwealth_bank''
                then assign_Date (to_datetime day_month) df
                else assign_Date (to_datetime month_day) df);
          df = (if statement_format = ''debit_card'' then
                  assign_Description (\<lambda>x. strip (remove_ci ''Pointofsalepurchase'' x))
                    (filter (\<lambda>r. \<not> str_contains
                       [''OpeningBalance'', ''ClosingBalance'', ''Deposit'', ''CreditCard/LOCpayment'']
                       (Description r)) df)
                else if statement_format = ''credit_card'' then
                  filter (\<lambda>r. \<not> str_contains [''PAYMENT FROM''] (Description r)) df
                else if statement_format = ''commonwealth_bank'' then
                  filter (\<lambda>r. \<not> str_contains [''OPENING BALANCE'', ''DEBIT INTEREST'']
                    (Description r)) df
                else df)
      in assign_Description first_three_words df)"

section \<open>The categorizer\<close>

text \<open>The dictionary \<^verbatim>\<open>categories\<close>, in its insertion order, the order \<^verbatim>\<open>items()\<close> follows.\<close>

definition categories :: "(string \<times> string list) list" where
  "categories =
     [(''Groceries'', [''woolworths'', ''iga'', ''supermarket'', ''freshco'', ''dhesi meat shop'',
                       ''7eleven'', ''dollarama'']),
      (''Dining/Takeout'', [''restaurant'', ''cafe'', ''tim hortons'', ''popeyes'',
                            ''banter ice cream'']),
      (''Utilities'', [''virgin plus'', ''adobe inc'', ''internet'', ''electricity'', ''water'']),
      (''Subscriptions'', [''canva'', ''nayax'', ''netflix'', ''spotify'']),
      (''Transportation'', [''uber'', ''lyft'', ''gas station'', ''public transit'']),
      (''Entertainment'', [''movie'', ''concert'', ''theme park'', ''music'']),
      (''Shopping'', [''petstock'', ''clothing'', ''electronics'', ''amazon'']),
      (''Health'', [''pharmacy'', ''hospital'', ''gym'']),
      (''Other'', [])]"

text \<open>
  The two loops of \<^verbatim>\<open>get_category\<close>: the inner one over the keywords of a category, the
  outer one over the entries of the table that are left.
\<close>

fun keyword_loop :: "string list \<Rightarrow> string \<Rightarrow> bool" where
  "keyword_loop [] description = False"
| "keyword_loop (keyword # keywords) description =
     (if contains keyword (lower description) then True else keyword_loop keywords description)"

fun category_loop :: "(string \<times> string list) list \<Rightarrow> string \<Rightarrow> string" where
  "category_loop [] description = ''Other''"
| "category_loop ((category, keywords) # items) description =
     (if keyword_loop keywords description then category else category_loop items description)"

definition get_category :: "string \<Rightarrow> string" where
  "get_category description = category_loop categories description"

text \<open>A row with the column \<^verbatim>\<open>Category\<close>.\<close>

record ('d, 'a) categorized = "('d, 'a) row" +
  Category :: string

text \<open>
  \<^verbatim>\<open>df["Category"] = df["Description"].apply(get_category)\<close>: the column is added, or
  replaced when the frame has one already (the rest of such a row is \<open>more\<close>).
\<close>

definition categorize_expenses :: "('d, 'a, 'm) row_scheme list \<Rightarrow> ('d, 'a) categorized list" where
  "categorize_expenses df =
     map (\<lambda>r. \<lparr>Date = Date r, Description = Description r, Amount = Amount r,
               Category = get_category (Description r)\<rparr>) df"

section \<open>Notions the properties are stated with\<close>

subsection \<open>What a pattern can capture\<close>

text \<open>
  A trace of a match gives each node of the pattern the piece of the text it consumed:
  \<open>consumes\<close> says which pieces a node admits, \<open>thread\<close> collects the groups of a trace.
\<close>

fun consumes :: "node \<Rightarrow> string \<Rightarrow> bool" where
  "consumes (Rep k lo hi greedy) w =
     (list_all (in_cls k) w \<and> lo \<le> length w \<and>
      (case hi of None \<Rightarrow> True | Some h \<Rightarrow> length w \<le> max h lo))"
| "consumes GroupOpen w = (w = [])"
| "consumes GroupClose w = (w = [])"
| "consumes EndAnchor w = (w = [])"

fun thread :: "node list \<Rightarrow> string list \<Rightarrow> captures \<Rightarrow> captures" where
  "thread (GroupOpen # nodes) (w # ws) (gs, opened) = thread nodes ws ([] # gs, True)"
| "thread (GroupClose # nodes) (w # ws) (gs, opened) = thread nodes ws (gs, False)"
| "thread (EndAnchor # nodes) (w # ws) caps = thread nodes ws caps"
| "thread (Rep k lo hi greedy # nodes) (w # ws) caps = thread nodes ws (fold consume w caps)"
| "thread nodes ws caps = caps"

definition trace_of :: "node list \<Rightarrow> string \<Rightarrow> captures \<Rightarrow> string list \<Rightarrow> string list \<Rightarrow> bool" where
  "trace_of nodes s caps groups ws \<longleftrightarrow>
     list_all2 consumes nodes ws \<and> prefix (concat ws) s \<and> groups = rev (fst (thread nodes ws caps))"

text \<open>A text of the form \<^verbatim>\<open>[\d,]+\.\d{2}\<close>.\<close>

definition decimal_text :: "string \<Rightarrow> bool" where
  "decimal_text a \<longleftrightarrow>
     (\<exists>whole cents. a = whole @ ''.'' @ cents \<and> whole \<noteq> [] \<and>
        list_all (in_cls DigitOrComma) whole \<and> length cents = 2 \<and> list_all isdecimal cents)"

subsection \<open>The parsers as one recursion\<close>

text \<open>The three parsers, each with the function that says what a matching line starts.\<close>

definition line_parsers :: "((string \<Rightarrow> raw option) \<times> (string list \<Rightarrow> raw list)) list" where
  "line_parsers =
     [(commonwealth_bank_start, parse_commonwealth_bank_transactions),
      (credit_card_start, parse_credit_card_transactions),
      (debit_card_start, parse_debit_card_transactions)]"
text \<open>The transactions the loop emits from a state on, as one recursion over the lines.\<close>

fun emitted :: "(string \<Rightarrow> raw option) \<Rightarrow> raw option \<Rightarrow> string list \<Rightarrow> raw list" where
  "emitted start current [] = (case current of None \<Rightarrow> [] | Some t \<Rightarrow> [t])"
| "emitted start current (line # lines) =
     (case start line of
        Some new_transaction \<Rightarrow>
          (case current of None \<Rightarrow> [] | Some t \<Rightarrow> [t]) @ emitted start (Some new_transaction) lines
      | None \<Rightarrow>
          emitted start
            (map_option (\<lambda>(date, description, amount).
               (date, description @ '' '' @ strip line, amount)) current) lines)"

text \<open>
  \<open>continued t t0\<close>: the transaction \<open>t\<close> is the transaction \<open>t0\<close> a line started, with
  its description possibly continued by later lines.
\<close>

definition continued :: "raw \<Rightarrow> raw \<Rightarrow> bool" where
  "continued t t0 \<longleftrightarrow>
     fst t = fst t0 \<and> prefix (fst (snd t0)) (fst (snd t)) \<and> snd (snd t) = snd (snd t0)"

subsection \<open>The normalizer, row by row\<close>

text \<open>
  What \<^const>\<open>normalize_transactions\<close> makes of one raw transaction (\<open>normalized_row\<close>),
  and which raw transactions it keeps (\<open>kept\<close>).
\<close>

definition date_format :: "string \<Rightarrow> directive list" where
  "date_format statement_format =
     (if statement_format = ''commonwealth_bank'' then day_month else month_day)"

definition excluded :: "string \<Rightarrow> string \<Rightarrow> bool" where
  "excluded statement_format description =
     (if statement_format = ''debit_card'' then
        str_contains [''OpeningBalance'', ''ClosingBalance'', ''Deposit'', ''CreditCard/LOCpayment'']
          description
      else if statement_format = ''credit_card'' then str_contains [''PAYMENT FROM''] description
      else if statement_format = ''commonwealth_bank'' then
        str_contains [''OPENING BALANCE'', ''DEBIT INTEREST''] description
      else False)"

definition cleaned :: "string \<Rightarrow> string \<Rightarrow> string" where
  "cleaned statement_format description =
     first_three_words
       (if statement_format = ''debit_card''
        then strip (remove_ci ''Pointofsalepurchase'' description) else description)"

definition normalized_row :: "string \<Rightarrow> raw \<Rightarrow> (timestamp option, float64 option) row" where
  "normalized_row statement_format t =
     (case t of (date, description, amount) \<Rightarrow>
        \<lparr>Date = to_datetime (date_format statement_format) date,
         Description = cleaned statement_format description,
         Amount = to_numeric (remove_commas amount)\<rparr>)"

definition kept :: "string \<Rightarrow> raw \<Rightarrow> bool" where
  "kept statement_format t =
     (case t of (date, description, amount) \<Rightarrow>
        to_numeric (remove_commas amount) \<noteq> None \<and> \<not> excluded statement_format description)"

subsection \<open>A keyword that occurs in a description\<close>

text \<open>
  The keyword occurs in the description when case is ignored: a piece of the description
  and the keyword have the same lower-case form.
\<close>

definition occurs_ignoring_case :: "string \<Rightarrow> string \<Rightarrow> bool" where
  "occurs_ignoring_case keyword description =
     (\<exists>pre mid post. description = pre @ mid @ post \<and> lower mid = lower keyword)"

definition category_matches :: "string \<Rightarrow> string \<times> string list \<Rightarrow> bool" where
  "category_matches description entry =
     (\<exists>keyword \<in> set (snd entry). occurs_ignoring_case keyword description)"

section \<open>Properties of the text operations\<close>

lemma contains_iff: "contains needle hay \<longleftrightarrow> (\<exists>pre post. hay = pre @ needle @ post)"
proof -
  have "contains needle hay \<longleftrightarrow> sublist needle hay"
    by (induction hay) (auto simp: sublist_Cons_right)
  then show ?thesis by (simp add: sublist_def)
qed

lemma list_ex_contains:
  "list_ex (contains needle) lines \<longleftrightarrow>
     (\<exists>line \<in> set lines. \<exists>pre post. line = pre @ needle @ post)"
  by (simp add: list_ex_iff contains_iff)

section \<open>The matcher is sound for its traces\<close>

lemma trace_of_Rep_cons:
  assumes "trace_of (Rep k (lo - 1) (one_less hi) g # nodes) cs (consume c caps) groups ws"
    and "in_cls k c" and "0 < lo \<or> hi \<noteq> Some 0"
  shows "\<exists>ws'. trace_of (Rep k lo hi g # nodes) (c # cs) caps groups ws'"
proof -
  from assms(1) obtain w ws0 where ws: "ws = w # ws0"
    by (cases ws) (auto simp: trace_of_def)
  have "trace_of (Rep k lo hi g # nodes) (c # cs) caps groups ((c # w) # ws0)"
    using assms unfolding ws trace_of_def
    by (cases hi) (auto split: option.splits)
  then show ?thesis ..
qed

lemma trace_of_skip:
  assumes "trace_of nodes s caps groups ws"
  shows "\<exists>ws'. trace_of (Rep k 0 hi g # nodes) s caps groups ws'"
proof -
  have "trace_of (Rep k 0 hi g # nodes) s caps groups ([] # ws)"
    using assms unfolding trace_of_def by (auto split: option.splits)
  then show ?thesis ..
qed

lemma run_sound:
  "run nodes s caps = Some groups \<Longrightarrow> \<exists>ws. trace_of nodes s caps groups ws"
proof (induction nodes s caps arbitrary: groups rule: run.induct)
  case (1 s gs opened)
  then have "trace_of [] s (gs, opened) groups []"
    by (simp add: trace_of_def)
  then show ?case ..
next
  case (2 nodes s gs opened)
  then obtain ws where "trace_of nodes s ([] # gs, True) groups ws" by auto
  then have "trace_of (GroupOpen # nodes) s (gs, opened) groups ([] # ws)"
    by (simp add: trace_of_def)
  then show ?case ..
next
  case (3 nodes s gs opened)
  then obtain ws where "trace_of nodes s (gs, False) groups ws" by auto
  then have "trace_of (GroupClose # nodes) s (gs, opened) groups ([] # ws)"
    by (simp add: trace_of_def)
  then show ?case ..
next
  case (4 nodes s caps)
  then obtain ws where "trace_of nodes s caps groups ws" by (auto split: if_splits)
  then have "trace_of (EndAnchor # nodes) s caps groups ([] # ws)"
    by (simp add: trace_of_def)
  then show ?case ..
next
  case (5 k lo hi greedy nodes caps)
  then have "lo = 0" and "\<exists>ws. trace_of nodes [] caps groups ws"
    by (auto split: if_splits)
  then show ?case using trace_of_skip by blast
next
  case (6 k lo hi greedy nodes c cs caps)
  show ?case
  proof (cases "0 < lo")
    case True
    with 6 show ?thesis
      by (auto split: if_splits intro: trace_of_Rep_cons)
  next
    case lo: False
    show ?thesis
    proof (cases "hi = Some 0 \<or> \<not> in_cls k c")
      case True
      with lo 6 show ?thesis by (auto intro: trace_of_skip)
    next
      case False
      then have c: "in_cls k c" "hi \<noteq> Some 0" by auto
      show ?thesis
      proof (cases greedy)
        case True
        show ?thesis
        proof (cases "run (Rep k 0 (one_less hi) greedy # nodes) cs (consume c caps)")
          case None
          with lo c True 6 show ?thesis by (auto intro: trace_of_skip)
        next
          case (Some r)
          with lo c True 6 have "\<exists>ws. trace_of (Rep k (lo - 1) (one_less hi) greedy # nodes) cs (consume c caps) groups ws"
            by auto
          with c show ?thesis using trace_of_Rep_cons by blast
        qed
      next
        case g: False
        show ?thesis
        proof (cases "run nodes (c # cs) caps")
          case None
          with lo c g 6 have "\<exists>ws. trace_of (Rep k (lo - 1) (one_less hi) greedy # nodes) cs (consume c caps) groups ws"
            by auto
          with c show ?thesis using trace_of_Rep_cons by blast
        next
          case (Some r)
          with lo c g 6 show ?thesis by (auto intro: trace_of_skip)
        qed
      qed
    qed
  qed
qed
lemma fold_consume_open: "fold consume w (g # gs, True) = ((g @ w) # gs, True)"
  by (induction w arbitrary: g) auto

lemma fold_consume_closed: "fold consume w (gs, False) = (gs, False)"
  by (induction w) auto
lemma list_all2_consumes_Cons:
  "list_all2 consumes (n # nodes) ws \<longleftrightarrow>
     (\<exists>w ws'. ws = w # ws' \<and> consumes n w \<and> list_all2 consumes nodes ws')"
  by (cases ws) auto

lemma decimal_textI:
  assumes "consumes (plus_of DigitOrComma) a" "consumes (one (Lit (CHR ''.''))) b"
    "consumes (times 2 2 Digit) c"
  shows "decimal_text (a @ b @ c)"
proof -
  from assms(2) have "b = ''.''" by (cases b) auto
  with assms(1,3) show ?thesis
    unfolding decimal_text_def by (intro exI [of _ a] exI [of _ c]) (auto simp: list_all_iff)
qed


lemma commonwealth_bank_groups:
  assumes "re_match commonwealth_bank_pattern line = Some groups"
  shows "\<exists>date description debit credit. groups = [date, description, debit, credit]
     \<and> decimal_text debit \<and> decimal_text credit"
proof -
  from assms obtain ws where "trace_of commonwealth_bank_pattern line ([], False) groups ws"
    unfolding re_match_def using run_sound by blast
  then show ?thesis
    unfolding trace_of_def commonwealth_bank_pattern_def decimal_group_def
    apply (simp only: append.simps list_all2_consumes_Cons list_all2_Nil)
    apply (elim exE conjE)
    apply (simp add: fold_consume_open fold_consume_closed decimal_textI del: consumes.simps(1))
    done
qed





section \<open>The parser loop\<close>

lemma parse_step_simps:
  "start line = Some t \<Longrightarrow> parse_step start line (transactions, current)
     = ((case current of Some c \<Rightarrow> transactions @ [c] | None \<Rightarrow> transactions), Some t)"
  "start line = None \<Longrightarrow> parse_step start line (transactions, None) = (transactions, None)"
  "start line = None \<Longrightarrow> parse_step start line (transactions, Some (date, description, amount))
     = (transactions, Some (date, description @ '' '' @ strip line, amount))"
  by (simp_all add: parse_step_def)

lemma fold_parse_step:
  "(case fold (parse_step start) lines (transactions, current) of
      (ts, Some t) \<Rightarrow> ts @ [t]
    | (ts, None) \<Rightarrow> ts)
   = transactions @ emitted start current lines"
proof (induction lines arbitrary: transactions current)
  case Nil
  then show ?case by (simp split: option.splits)
next
  case (Cons line lines)
  show ?case
  proof (cases "start line")
    case None
    then show ?thesis
      by (cases current) (auto simp: parse_step_simps Cons.IH)
  next
    case (Some t)
    then show ?thesis
      by (cases current) (auto simp: parse_step_simps Cons.IH)
  qed
qed

lemma parse_lines_emitted: "parse_lines start lines = emitted start None lines"
  using fold_parse_step [of start lines "[]" None] by (simp add: parse_lines_def)

lemma emitted_no_match_None:
  "list_all (\<lambda>line. start line = None) lines \<Longrightarrow> emitted start None (lines @ rest) = emitted start None rest"
  by (induction lines) auto

lemma emitted_no_match_Some:
  "list_all (\<lambda>line. start line = None) lines \<Longrightarrow>
   emitted start (Some (date, description, amount)) (lines @ rest)
   = emitted start
       (Some (date, description @ concat (map (\<lambda>line. '' '' @ strip line) lines), amount)) rest"
  by (induction lines arbitrary: description) auto

lemma parse_lines_continuation:
  assumes "list_all (\<lambda>line. start line = None) before"
    and "start m1 = Some (date1, description1, amount1)"
    and "list_all (\<lambda>line. start line = None) cs"
    and "start m2 = Some (date2, description2, amount2)"
    and "list_all (\<lambda>line. start line = None) cs2"
  shows "parse_lines start (before @ [m1] @ cs @ [m2] @ cs2) =
     [(date1, description1 @ concat (map (\<lambda>line. '' '' @ strip line) cs), amount1),
      (date2, description2 @ concat (map (\<lambda>line. '' '' @ strip line) cs2), amount2)]"
proof -
  have "emitted start (Some (date2, description2, amount2)) (cs2 @ [])
      = [(date2, description2 @ concat (map (\<lambda>line. '' '' @ strip line) cs2), amount2)]"
    using assms(5) by (subst emitted_no_match_Some) simp_all
  then show ?thesis
    using assms(1-4)
    by (simp add: parse_lines_emitted emitted_no_match_None emitted_no_match_Some)
qed

lemma continued_refl: "continued t t"
  by (simp add: continued_def)

lemma emitted_starts:
  "list_all2 continued (emitted start current lines)
     ((case current of None \<Rightarrow> [] | Some t \<Rightarrow> [t]) @ List.map_filter start lines)"
proof (induction lines arbitrary: current)
  case Nil
  then show ?case by (simp add: List.map_filter_simps continued_refl split: option.splits)
next
  case (Cons line lines)
  show ?case
  proof (cases "start line")
    case (Some t)
    then show ?thesis
      using Cons.IH [of "Some t"]
      by (auto simp: List.map_filter_simps continued_refl split: option.splits)
  next
    case None
    show ?thesis
    proof (cases current)
      case n: None
      with None Cons.IH [of None] show ?thesis
        by (simp add: List.map_filter_simps)
    next
      case (Some c)
      obtain date description amount where c: "c = (date, description, amount)"
        by (cases c)
      from Cons.IH [of "Some (date, description @ '' '' @ strip line, amount)"]
      have "list_all2 continued
          (emitted start (Some (date, description @ '' '' @ strip line, amount)) lines)
          ((date, description @ '' '' @ strip line, amount) # List.map_filter start lines)"
        by simp
      then have "list_all2 continued
          (emitted start (Some (date, description @ '' '' @ strip line, amount)) lines)
          ((date, description, amount) # List.map_filter start lines)"
        by (auto simp: list_all2_Cons2 continued_def dest: append_prefixD)
      with None Some c show ?thesis
        by (simp add: List.map_filter_simps)
    qed
  qed
qed

lemma emitted_all_match:
  "list_all (\<lambda>line. start line \<noteq> None) lines \<Longrightarrow>
   emitted start current lines = (case current of None \<Rightarrow> [] | Some t \<Rightarrow> [t]) @ map (\<lambda>line. the (start line)) lines"
  by (induction lines arbitrary: current) (auto split: option.splits)

lemma line_parsers_parse_lines:
  "(start, parse) \<in> set line_parsers \<Longrightarrow> parse = parse_lines start"
  by (auto simp: line_parsers_def parse_commonwealth_bank_transactions_def
      parse_credit_card_transactions_def parse_debit_card_transactions_def)

section \<open>The normalizer as a map over a filter\<close>

lemma normalize_transactions_rows:
  "normalize_transactions transactions statement_format
   = map (normalized_row statement_format) (filter (kept statement_format) transactions)"
proof -
  have "statement_format = ''debit_card'' \<or> statement_format = ''credit_card''
      \<or> statement_format = ''commonwealth_bank''
      \<or> (statement_format \<noteq> ''debit_card'' \<and> statement_format \<noteq> ''credit_card''
          \<and> statement_format \<noteq> ''commonwealth_bank'')"
    by blast
  then show ?thesis
    by (elim disjE)
      (simp_all add: normalize_transactions_def DataFrame_def assign_Amount_def assign_Date_def
        assign_Description_def filter_map comp_def normalized_row_def kept_def excluded_def
        cleaned_def date_format_def split_beta cong: filter_cong)
qed





section \<open>The category loops\<close>

lemma occurs_ignoring_case_iff [code]:
  "occurs_ignoring_case keyword description \<longleftrightarrow> contains (lower keyword) (lower description)"
proof
  assume "occurs_ignoring_case keyword description"
  then obtain pre mid post where "description = pre @ mid @ post" "lower mid = lower keyword"
    by (auto simp: occurs_ignoring_case_def)
  then have "lower description = lower pre @ lower keyword @ lower post"
    by (simp add: lower_def)
  then show "contains (lower keyword) (lower description)"
    unfolding contains_iff by blast
next
  assume "contains (lower keyword) (lower description)"
  then obtain p q where "map lower_char description = p @ (lower keyword @ q)"
    unfolding contains_iff lower_def by blast
  then have "\<exists>us vs. description = us @ vs \<and> p = map lower_char us
      \<and> lower keyword @ q = map lower_char vs"
    by (simp only: map_eq_append_conv)
  then obtain pre rest where a: "description = pre @ rest" "map lower_char rest = lower keyword @ q"
    by metis
  from a(2) have "\<exists>us vs. rest = us @ vs \<and> lower keyword = map lower_char us
      \<and> q = map lower_char vs"
    by (simp only: map_eq_append_conv)
  then obtain mid post where "rest = mid @ post" "map lower_char mid = lower keyword"
    by metis
  with a(1) show "occurs_ignoring_case keyword description"
    unfolding occurs_ignoring_case_def lower_def by blast
qed

lemma keywords_lowercase:
  "list_all (\<lambda>entry. list_all (\<lambda>keyword. lower keyword = keyword) (snd entry)) categories"
  by code_simp

lemma keyword_loop_iff:
  "keyword_loop kws description \<longleftrightarrow>
     (\<exists>keyword \<in> set kws. contains keyword (lower description))"
  by (induction kws) auto

lemma category_loop_find:
  "category_loop items description =
     (case find (\<lambda>entry. keyword_loop (snd entry) description) items of
        Some (category, keywords) \<Rightarrow> category
      | None \<Rightarrow> ''Other'')"
  by (induction items) auto

lemma category_matches_keyword_loop:
  assumes "entry \<in> set categories"
  shows "category_matches description entry \<longleftrightarrow> keyword_loop (snd entry) description"
proof -
  have "\<forall>keyword \<in> set (snd entry). lower keyword = keyword"
    using keywords_lowercase assms by (auto simp: list_all_iff)
  then show ?thesis
    by (auto simp: category_matches_def keyword_loop_iff occurs_ignoring_case_iff)
qed

lemma find_first:
  assumes "i < length xs" "P (xs ! i)" "\<forall>x \<in> set (take i xs). \<not> P x"
  shows "find P xs = Some (xs ! i)"
  using assms
proof (induction xs arbitrary: i)
  case Nil
  then show ?case by simp
next
  case (Cons x xs)
  then show ?case by (cases i) auto
qed
lemma category_matches_code [code]:
  "category_matches description entry = list_ex (\<lambda>keyword. occurs_ignoring_case keyword description) (snd entry)"
  by (simp add: category_matches_def list_ex_iff)

section \<open>Every amount a parser emits is a decimal text\<close>


lemma decimal_text_nonempty: "decimal_text a \<Longrightarrow> a \<noteq> []"
  by (auto simp: decimal_text_def)






section \<open>Worked lines and rows\<close>

text \<open>
  The matcher, the parsers and the row operations of the normalizer on concrete texts;
  the examples of the properties below are built from these.
\<close>

lemma credit_card_lines:
  "credit_card_start ''REF TRANS. POST DESCRIPTION AMOUNT'' = None"
  "credit_card_start ''001 JAN 05 JAN 07 NETFLIX.COM 15.99'' = Some (''JAN 05'', ''NETFLIX.COM'', ''15.99'')"
  "credit_card_start ''  LOS GATOS CA  '' = None"
  "credit_card_start ''002 JAN 06 JAN 08 UBER TRIP 1,115.99'' = Some (''JAN 06'', ''UBER TRIP'', ''1,115.99'')"
  by code_simp+

lemma debit_card_lines:
  "debit_card_start ''Date Description Withdrawals Balance'' = None"
  "debit_card_start ''Jan01 OpeningBalance 100.00 100.00 100.00'' = Some (''Jan01'', ''OpeningBalance 100.00'', ''100.00'')"
  "debit_card_start ''  LOS GATOS CA  '' = None"
  "debit_card_start ''Jan02 Coffee Shop Purchase 4.50 95.50'' = Some (''Jan02'', ''Coffee Shop Purchase'', ''4.50'')"
  by code_simp+

lemma commonwealth_bank_lines:
  "commonwealth_bank_start ''Date Transaction Debit Credit Balance'' = None"
  "re_match commonwealth_bank_pattern ''05 Jan Coffee Shop 4.50 1,000.00''
     = Some [''05 Jan'', ''Coffee Shop'', ''4.50'', ''1,000.00'']"
  "commonwealth_bank_start ''05 Jan Coffee Shop 4.50 1,000.00'' = Some (''05 Jan'', ''Coffee Shop'', ''4.50'')"
  "commonwealth_bank_start ''  LOS GATOS CA  '' = None"
  "commonwealth_bank_start ''06 Jan Rent 1,200.00 2,000.00'' = Some (''06 Jan'', ''Rent'', ''1,200.00'')"
  "re_match commonwealth_bank_pattern ''06 Jan Salary 2,000.00 3,000.00''
     = Some [''06 Jan'', ''Salary'', ''2,000.00'', ''3,000.00'']"
  "commonwealth_bank_start ''06 Jan Salary 2,000.00 3,000.00''
     = Some (''06 Jan'', ''Salary'', ''2,000.00'')"
  by code_simp+

lemma strip_example: "strip ''  LOS GATOS CA  '' = ''LOS GATOS CA''"
  by code_simp

lemma more_lines:
  "credit_card_start ''001 XYZ 05 JAN 07 COFFEE 4.50'' = Some (''XYZ 05'', ''COFFEE'', ''4.50'')"
  "debit_card_start ''Jan03 POINTOFSALEPURCHASE Woolworths Metro Store 123 Sydney 20.00 75.50''
     = Some (''Jan03'', ''POINTOFSALEPURCHASE Woolworths Metro Store 123 Sydney'', ''20.00'')"
  by code_simp+

lemma amount_examples:
  "to_numeric (remove_commas ''15.99'') = Some (float64_of 15.99)"
  "to_numeric (remove_commas ''1,115.99'') = Some (float64_of 1115.99)"
  "to_numeric (remove_commas ''50.00'') = Some (float64_of 50)"
  "to_numeric (remove_commas ''4.50'') = Some (float64_of 4.5)"
  "to_numeric (remove_commas ''100.00'') = Some (float64_of 100)"
  "to_numeric (remove_commas ''20.00'') = Some (float64_of 20)"
  "to_numeric (remove_commas ''2,000.00'') = Some (float64_of 2000)"
  "to_numeric (remove_commas ''n/a'') = None"
  "to_numeric (remove_commas ''inf'') = Some PosInf"
  by (simp_all add: to_numeric_def parse_double_def infinity_spelling_def remove_commas_def
      nat_of_digits_def digit_value_def isdecimal_def ascii_space_def code_point_def
      lower_def lower_char_def)


lemma date_examples:
  "to_datetime month_day ''JAN 05'' = Some \<lparr>year = 1900, month = 1, day = 5\<rparr>"
  "to_datetime month_day ''JAN 06'' = Some \<lparr>year = 1900, month = 1, day = 6\<rparr>"
  "to_datetime month_day ''XYZ 05'' = None"
  "to_datetime month_day ''Jan01'' = None"
  "to_datetime month_day ''Jan02'' = None"
  "to_datetime month_day ''Jan03'' = None"
  "to_datetime day_month ''05 Jan'' = Some \<lparr>year = 1900, month = 1, day = 5\<rparr>"
  "to_datetime day_month ''06 Jan'' = Some \<lparr>year = 1900, month = 1, day = 6\<rparr>"
  by code_simp+

lemma excluded_examples:
  "\<not> excluded ''credit_card'' ''NETFLIX.COM''"
  "excluded ''credit_card'' ''Payment from chequing''"
  "\<not> excluded ''credit_card'' ''UBER TRIP''"
  "\<not> excluded ''credit_card'' ''COFFEE''"
  "\<not> excluded ''credit_card'' ''TEA''"
  "\<not> excluded ''commonwealth_bank'' ''Salary''"
  "excluded ''debit_card'' ''OpeningBalance 100.00''"
  "\<not> excluded ''debit_card'' ''Coffee Shop Purchase''"
  "\<not> excluded ''debit_card'' ''POINTOFSALEPURCHASE Woolworths Metro Store 123 Sydney''"
  by code_simp+

lemma cleaned_examples:
  "cleaned ''credit_card'' ''NETFLIX.COM'' = ''NETFLIX.COM''"
  "cleaned ''credit_card'' ''UBER TRIP'' = ''UBER TRIP''"
  "cleaned ''credit_card'' ''COFFEE'' = ''COFFEE''"
  "cleaned ''commonwealth_bank'' ''Salary'' = ''Salary''"
  "cleaned ''debit_card'' ''Coffee Shop Purchase'' = ''Coffee Shop Purchase''"
  "cleaned ''debit_card'' ''POINTOFSALEPURCHASE Woolworths Metro Store 123 Sydney'' = ''Woolworths Metro Store''"
  by code_simp+

lemma date_format_simps:
  "date_format ''credit_card'' = month_day"
  "date_format ''debit_card'' = month_day"
  "date_format ''commonwealth_bank'' = day_month"
  by (simp_all add: date_format_def)

lemma kept_examples:
  "kept ''credit_card'' (''JAN 05'', ''NETFLIX.COM'', ''15.99'')"
  "\<not> kept ''credit_card'' (''JAN 06'', ''Payment from chequing'', ''50.00'')"
  "kept ''credit_card'' (''JAN 06'', ''UBER TRIP'', ''1,115.99'')"
  "kept ''credit_card'' (''XYZ 05'', ''COFFEE'', ''4.50'')"
  "\<not> kept ''credit_card'' (''JAN 06'', ''TEA'', ''n/a'')"
  "kept ''credit_card'' (''JAN 05'', ''COFFEE'', ''inf'')"
  "kept ''commonwealth_bank'' (''06 Jan'', ''Salary'', ''2,000.00'')"
  "\<not> kept ''debit_card'' (''Jan01'', ''OpeningBalance 100.00'', ''100.00'')"
  "kept ''debit_card'' (''Jan02'', ''Coffee Shop Purchase'', ''4.50'')"
  "kept ''debit_card'' (''Jan03'', ''POINTOFSALEPURCHASE Woolworths Metro Store 123 Sydney'', ''20.00'')"
  by (simp_all add: kept_def amount_examples excluded_examples del: not_None_eq)

lemma normalized_row_examples:
  "normalized_row ''credit_card'' (''JAN 05'', ''NETFLIX.COM'', ''15.99'')
     = \<lparr>Date = Some \<lparr>year = 1900, month = 1, day = 5\<rparr>, Description = ''NETFLIX.COM'',
        Amount = Some (float64_of 15.99)\<rparr>"
  "normalized_row ''credit_card'' (''JAN 06'', ''UBER TRIP'', ''1,115.99'')
     = \<lparr>Date = Some \<lparr>year = 1900, month = 1, day = 6\<rparr>, Description = ''UBER TRIP'',
        Amount = Some (float64_of 1115.99)\<rparr>"
  "normalized_row ''credit_card'' (''XYZ 05'', ''COFFEE'', ''4.50'')
     = \<lparr>Date = None, Description = ''COFFEE'', Amount = Some (float64_of 4.5)\<rparr>"
  "normalized_row ''credit_card'' (''JAN 05'', ''COFFEE'', ''inf'')
     = \<lparr>Date = Some \<lparr>year = 1900, month = 1, day = 5\<rparr>, Description = ''COFFEE'',
        Amount = Some PosInf\<rparr>"
  "normalized_row ''commonwealth_bank'' (''06 Jan'', ''Salary'', ''2,000.00'')
     = \<lparr>Date = Some \<lparr>year = 1900, month = 1, day = 6\<rparr>, Description = ''Salary'',
        Amount = Some (float64_of 2000)\<rparr>"
  "normalized_row ''debit_card'' (''Jan02'', ''Coffee Shop Purchase'', ''4.50'')
     = \<lparr>Date = None, Description = ''Coffee Shop Purchase'', Amount = Some (float64_of 4.5)\<rparr>"
  "normalized_row ''debit_card''
       (''Jan03'', ''POINTOFSALEPURCHASE Woolworths Metro Store 123 Sydney'', ''20.00'')
     = \<lparr>Date = None, Description = ''Woolworths Metro Store'', Amount = Some (float64_of 20)\<rparr>"
  by (simp_all add: normalized_row_def date_format_simps amount_examples date_examples
      cleaned_examples)

lemmas row_eval = kept_examples normalized_row_examples

lemma lower_examples:
  "lower ''NETFLIX.COM'' = ''netflix.com''"
  "lower ''Amazon Music'' = ''amazon music''"
  "lower ''Hardware Store'' = ''hardware store''"
  by code_simp+

lemma get_category_examples:
  "get_category ''NETFLIX.COM'' = ''Subscriptions''"
  by (simp add: get_category_def categories_def lower_examples)


section \<open>The format detector: the order of the checks\<close>

text \<open>
  Claim C4. For every finite sequence of lines \<^const>\<open>detect_statement_format\<close> returns
  the Commonwealth Bank tag when some line contains "Commonwealth Bank of Australia",
  whatever other markers are present; else the credit card tag when some line contains
  "TRANS. POST"; else the debit card tag when some line contains "OpeningBalance"; else
  the credit card tag. It is a total function into the three tags: no document raises an
  error.
\<close>

theorem detect_statement_format_priority:
  "detect_statement_format lines =
     (if \<exists>line \<in> set lines. \<exists>pre post. line = pre @ ''Commonwealth Bank of Australia'' @ post
      then ''commonwealth_bank''
      else if \<exists>line \<in> set lines. \<exists>pre post. line = pre @ ''TRANS. POST'' @ post
      then ''credit_card''
      else if \<exists>line \<in> set lines. \<exists>pre post. line = pre @ ''OpeningBalance'' @ post
      then ''debit_card''
      else ''credit_card'')
   \<and> detect_statement_format lines \<in> {''commonwealth_bank'', ''credit_card'', ''debit_card''}"
  unfolding detect_statement_format_def list_ex_contains by simp

theorem detect_statement_format_priority_witness:
  "detect_statement_format
     [''OpeningBalance 10.00'', ''TRANS. POST'', ''The Commonwealth Bank of Australia'']
     = ''commonwealth_bank''
   \<and> detect_statement_format [''OpeningBalance 10.00'', ''REF TRANS. POST DATE''] = ''credit_card''
   \<and> detect_statement_format [''Jan01 OpeningBalance 10.00 10.00''] = ''debit_card''
   \<and> detect_statement_format [''an unknown document''] = ''credit_card''
   \<and> detect_statement_format [] = ''credit_card''"
proof -
  have "contains ''Commonwealth Bank of Australia'' ''The Commonwealth Bank of Australia''"
    by simp
  then have "\<exists>pre post. ''The Commonwealth Bank of Australia''
      = pre @ ''Commonwealth Bank of Australia'' @ post"
    by (simp only: contains_iff)
  then have "\<exists>line \<in> set [''OpeningBalance 10.00'', ''TRANS. POST'', ''The Commonwealth Bank of Australia''].
      \<exists>pre post. line = pre @ ''Commonwealth Bank of Australia'' @ post"
    by (intro bexI [of _ "''The Commonwealth Bank of Australia''"]) simp_all
  then have "detect_statement_format
      [''OpeningBalance 10.00'', ''TRANS. POST'', ''The Commonwealth Bank of Australia'']
      = ''commonwealth_bank''"
    using detect_statement_format_priority
      [of "[''OpeningBalance 10.00'', ''TRANS. POST'', ''The Commonwealth Bank of Australia'']"]
    by presburger
  then show ?thesis
    by (simp add: detect_statement_format_def)
qed

section \<open>Categorizing twice, and what categorizing leaves alone\<close>

text \<open>
  Claim C9. Categorization is idempotent: \<^const>\<open>categorize_expenses\<close> applied to its own
  result gives that result again, so every row has the category it had after the first
  application. The table is a constant and the category of a row is a function of its
  description alone.
\<close>

theorem categorize_expenses_idempotent:
  "categorize_expenses (categorize_expenses df) = categorize_expenses df
   \<and> map Category (categorize_expenses (categorize_expenses df))
     = map Category (categorize_expenses df)"
  by (simp add: categorize_expenses_def)

text \<open>
  Claim C10. \<^const>\<open>categorize_expenses\<close> changes nothing but the category: the dates, the
  descriptions and the amounts of the rows, their number and their order are those of
  its input, and the category of each row is the one \<^const>\<open>get_category\<close> gives its
  description.
\<close>

theorem categorize_expenses_frame:
  "map Date (categorize_expenses df) = map Date df
   \<and> map Description (categorize_expenses df) = map Description df
   \<and> map Amount (categorize_expenses df) = map Amount df
   \<and> length (categorize_expenses df) = length df
   \<and> map Category (categorize_expenses df) = map (\<lambda>r. get_category (Description r)) df"
  by (simp add: categorize_expenses_def comp_def)

section \<open>Continuation lines\<close>

text \<open>
  Claim C3. For each of the three parsers, on lines of the shape: lines that do not match,
  a matching line \<open>m1\<close>, lines \<open>cs\<close> that do not match, a matching line \<open>m2\<close>, lines
  \<open>rest\<close> that do not match: the parser emits exactly two transactions. The first has the
  date and the amount \<open>m1\<close> captured and the description \<open>m1\<close> captured followed by the
  stripped texts of \<open>cs\<close>, in their order, each after a single blank; the second begins at
  \<open>m2\<close> and is emitted after the last line, with the lines of \<open>rest\<close> appended in the same
  way. The lines before \<open>m1\<close>, seen while no transaction is being read, leave no trace.
\<close>

theorem continuation_lines:
  assumes "(start, parse) \<in> set line_parsers"
    and "list_all (\<lambda>line. start line = None) before"
    and "start m1 = Some (date1, description1, amount1)"
    and "list_all (\<lambda>line. start line = None) cs"
    and "start m2 = Some (date2, description2, amount2)"
    and "list_all (\<lambda>line. start line = None) rest"
  shows "parse (before @ [m1] @ cs @ [m2] @ rest) =
     [(date1, description1 @ concat (map (\<lambda>line. '' '' @ strip line) cs), amount1),
      (date2, description2 @ concat (map (\<lambda>line. '' '' @ strip line) rest), amount2)]"
  using parse_lines_continuation [OF assms(2-6)] line_parsers_parse_lines [OF assms(1)]
  by simp

theorem continuation_lines_witness:
  "parse_credit_card_transactions
     [''REF TRANS. POST DESCRIPTION AMOUNT'', ''001 JAN 05 JAN 07 NETFLIX.COM 15.99'',
      ''  LOS GATOS CA  '', ''002 JAN 06 JAN 08 UBER TRIP 1,115.99'']
   = [(''JAN 05'', ''NETFLIX.COM LOS GATOS CA'', ''15.99''), (''JAN 06'', ''UBER TRIP'', ''1,115.99'')]
   \<and> parse_debit_card_transactions
     [''Date Description Withdrawals Balance'', ''Jan01 OpeningBalance 100.00 100.00 100.00'',
      ''  LOS GATOS CA  '', ''Jan02 Coffee Shop Purchase 4.50 95.50'']
   = [(''Jan01'', ''OpeningBalance 100.00 LOS GATOS CA'', ''100.00''),
      (''Jan02'', ''Coffee Shop Purchase'', ''4.50'')]
   \<and> parse_commonwealth_bank_transactions
     [''Date Transaction Debit Credit Balance'', ''05 Jan Coffee Shop 4.50 1,000.00'',
      ''  LOS GATOS CA  '', ''06 Jan Rent 1,200.00 2,000.00'']
   = [(''05 Jan'', ''Coffee Shop LOS GATOS CA'', ''4.50''), (''06 Jan'', ''Rent'', ''1,200.00'')]"
proof -
  have "parse_credit_card_transactions
     ([''REF TRANS. POST DESCRIPTION AMOUNT''] @ [''001 JAN 05 JAN 07 NETFLIX.COM 15.99''] @
      [''  LOS GATOS CA  ''] @ [''002 JAN 06 JAN 08 UBER TRIP 1,115.99''] @ [])
   = [(''JAN 05'', ''NETFLIX.COM'' @ concat (map (\<lambda>line. '' '' @ strip line) [''  LOS GATOS CA  '']), ''15.99''),
      (''JAN 06'', ''UBER TRIP'' @ concat (map (\<lambda>line. '' '' @ strip line) []), ''1,115.99'')]"
    by (rule continuation_lines [of credit_card_start])
       (simp_all add: line_parsers_def credit_card_lines)
  moreover have "parse_debit_card_transactions
     ([''Date Description Withdrawals Balance''] @ [''Jan01 OpeningBalance 100.00 100.00 100.00''] @
      [''  LOS GATOS CA  ''] @ [''Jan02 Coffee Shop Purchase 4.50 95.50''] @ [])
   = [(''Jan01'', ''OpeningBalance 100.00'' @ concat (map (\<lambda>line. '' '' @ strip line) [''  LOS GATOS CA  '']), ''100.00''),
      (''Jan02'', ''Coffee Shop Purchase'' @ concat (map (\<lambda>line. '' '' @ strip line) []), ''4.50'')]"
    by (rule continuation_lines [of debit_card_start])
       (simp_all add: line_parsers_def debit_card_lines)
  moreover have "parse_commonwealth_bank_transactions
     ([''Date Transaction Debit Credit Balance''] @ [''05 Jan Coffee Shop 4.50 1,000.00''] @
      [''  LOS GATOS CA  ''] @ [''06 Jan Rent 1,200.00 2,000.00''] @ [])
   = [(''05 Jan'', ''Coffee Shop'' @ concat (map (\<lambda>line. '' '' @ strip line) [''  LOS GATOS CA  '']), ''4.50''),
      (''06 Jan'', ''Rent'' @ concat (map (\<lambda>line. '' '' @ strip line) []), ''1,200.00'')]"
    by (rule continuation_lines [of commonwealth_bank_start])
       (simp_all add: line_parsers_def commonwealth_bank_lines)
  ultimately show ?thesis
    by (simp add: strip_example)
qed

section \<open>Order\<close>

text \<open>
  Claim C8. For each of the three parsers the emitted transactions are, in order, the
  ones the matching lines start, one for each matching line: same date, same amount, and
  a description that begins with the captured one. When every line matches, the output is
  exactly what each line starts, line by line. Normalization is a map over a filter of
  its input: the rows that are kept stay in their order.
\<close>

theorem order_preserved:
  "(\<forall>(start, parse) \<in> set line_parsers.
      list_all2 continued (parse lines) (List.map_filter start lines) \<and>
      (list_all (\<lambda>line. start line \<noteq> None) lines \<longrightarrow>
         parse lines = map (\<lambda>line. the (start line)) lines))
   \<and> normalize_transactions transactions statement_format
     = map (normalized_row statement_format) (filter (kept statement_format) transactions)"
proof -
  have "list_all2 continued (parse lines) (List.map_filter start lines)"
    if "(start, parse) \<in> set line_parsers" for start parse
    using emitted_starts [of start None lines] line_parsers_parse_lines [OF that]
    by (simp add: parse_lines_emitted)
  moreover have "parse lines = map (\<lambda>line. the (start line)) lines"
    if "(start, parse) \<in> set line_parsers" "list_all (\<lambda>line. start line \<noteq> None) lines"
    for start parse
    using emitted_all_match [OF that(2), of None] line_parsers_parse_lines [OF that(1)]
    by (simp add: parse_lines_emitted)
  ultimately show ?thesis
    using normalize_transactions_rows by blast
qed

theorem order_preserved_witness:
  "parse_credit_card_transactions
     [''001 JAN 05 JAN 07 NETFLIX.COM 15.99'', ''002 JAN 06 JAN 08 UBER TRIP 1,115.99'']
   = [(''JAN 05'', ''NETFLIX.COM'', ''15.99''), (''JAN 06'', ''UBER TRIP'', ''1,115.99'')]
   \<and> normalize_transactions
       [(''JAN 05'', ''NETFLIX.COM'', ''15.99''), (''JAN 06'', ''Payment from chequing'', ''50.00''),
        (''JAN 06'', ''UBER TRIP'', ''1,115.99'')] ''credit_card''
     = [\<lparr>Date = Some \<lparr>year = 1900, month = 1, day = 5\<rparr>, Description = ''NETFLIX.COM'',
          Amount = Some (float64_of 15.99)\<rparr>,
        \<lparr>Date = Some \<lparr>year = 1900, month = 1, day = 6\<rparr>, Description = ''UBER TRIP'',
          Amount = Some (float64_of 1115.99)\<rparr>]"
proof -
  note inst = order_preserved
    [of "[''001 JAN 05 JAN 07 NETFLIX.COM 15.99'', ''002 JAN 06 JAN 08 UBER TRIP 1,115.99'']"
      "[(''JAN 05'', ''NETFLIX.COM'', ''15.99''), (''JAN 06'', ''Payment from chequing'', ''50.00''),
        (''JAN 06'', ''UBER TRIP'', ''1,115.99'')]" "''credit_card''"]
  have m: "list_all (\<lambda>line. credit_card_start line \<noteq> None)
      [''001 JAN 05 JAN 07 NETFLIX.COM 15.99'', ''002 JAN 06 JAN 08 UBER TRIP 1,115.99'']"
    by (simp add: credit_card_lines)
  have "(credit_card_start, parse_credit_card_transactions) \<in> set line_parsers"
    by (simp add: line_parsers_def)
  with inst m have "parse_credit_card_transactions
     [''001 JAN 05 JAN 07 NETFLIX.COM 15.99'', ''002 JAN 06 JAN 08 UBER TRIP 1,115.99'']
     = map (\<lambda>line. the (credit_card_start line))
        [''001 JAN 05 JAN 07 NETFLIX.COM 15.99'', ''002 JAN 06 JAN 08 UBER TRIP 1,115.99'']"
    by blast
  moreover from inst have "normalize_transactions
       [(''JAN 05'', ''NETFLIX.COM'', ''15.99''), (''JAN 06'', ''Payment from chequing'', ''50.00''),
        (''JAN 06'', ''UBER TRIP'', ''1,115.99'')] ''credit_card''
     = map (normalized_row ''credit_card'') (filter (kept ''credit_card'')
       [(''JAN 05'', ''NETFLIX.COM'', ''15.99''), (''JAN 06'', ''Payment from chequing'', ''50.00''),
        (''JAN 06'', ''UBER TRIP'', ''1,115.99'')])"
    by (rule conjunct2)
  ultimately show ?thesis
    by (simp add: credit_card_lines row_eval)
qed

section \<open>The amount of a Commonwealth Bank line\<close>

text \<open>
  The parser writes \<^verbatim>\<open>debit if debit else "-" + credit\<close>, but its pattern ends with two
  decimal texts, each with a digit or a comma before the point: the debit group of a line
  that matches is never empty, and the amount of the line is always that group, without
  a sign.
\<close>

lemma commonwealth_bank_amount_is_debit:
  assumes "re_match commonwealth_bank_pattern line = Some [date, description, debit, credit]"
  shows "debit \<noteq> [] \<and> credit \<noteq> []
     \<and> commonwealth_bank_start line = Some (date, description, debit)
     \<and> parse_commonwealth_bank_transactions [line] = [(date, description, debit)]"
proof -
  have d: "debit \<noteq> []" "credit \<noteq> []"
    using commonwealth_bank_groups [OF assms] decimal_text_nonempty by auto
  then have "commonwealth_bank_start line = Some (date, description, debit)"
    using assms by (simp add: commonwealth_bank_start_def)
  then show ?thesis
    using d by (simp add: parse_commonwealth_bank_transactions_def parse_lines_emitted)
qed

text \<open>
  Claim C2. A Commonwealth Bank row with an empty debit and a credit is to get the negated
  credit as its amount. The code does not reach this: on the line below, a credit of
  2,000.00 followed by the balance 3,000.00, the pattern takes the credit for the debit
  group and the balance for the credit group, and the row gets the amount 2,000.00, a
  positive value, where the claim asks for its negation.
\<close>

theorem commonwealth_bank_credit_row:
  "re_match commonwealth_bank_pattern ''06 Jan Salary 2,000.00 3,000.00''
     = Some [''06 Jan'', ''Salary'', ''2,000.00'', ''3,000.00'']
   \<and> parse_commonwealth_bank_transactions [''06 Jan Salary 2,000.00 3,000.00'']
     = [(''06 Jan'', ''Salary'', ''2,000.00'')]
   \<and> normalize_transactions
       (parse_commonwealth_bank_transactions [''06 Jan Salary 2,000.00 3,000.00''])
       ''commonwealth_bank''
     = [\<lparr>Date = Some \<lparr>year = 1900, month = 1, day = 6\<rparr>, Description = ''Salary'',
         Amount = Some (float64_of 2000)\<rparr>]"
  by (simp add: commonwealth_bank_lines parse_commonwealth_bank_transactions_def
      parse_lines_emitted normalize_transactions_rows row_eval)

section \<open>The exclusions of the debit card format\<close>



section \<open>What every normalized row has\<close>

text \<open>
  Claim C1, as amended. For every sequence of raw transactions and every format, every
  row of the output of \<^const>\<open>normalize_transactions\<close> has an amount that is not NaN, the
  value \<^const>\<open>to_numeric\<close> gives the amount text of a raw transaction of the input (an
  infinity when the text spells one), and the date \<^const>\<open>to_datetime\<close> gives that
  transaction's date text, which is the null date when the text does not parse. A raw
  transaction whose amount text does not parse is left out entirely. The date texts never
  decide which rows are kept: with other date texts the descriptions and the amounts of
  the output are the same.
\<close>

theorem amounts_parsed_dates_kept:
  "list_all (\<lambda>r. Amount r \<noteq> None) (normalize_transactions transactions statement_format)
   \<and> (\<forall>r \<in> set (normalize_transactions transactions statement_format).
        \<exists>(date, description, amount) \<in> set transactions.
          Amount r = to_numeric (remove_commas amount) \<and>
          Date r = to_datetime (date_format statement_format) date)
   \<and> (to_numeric (remove_commas amount) = None \<longrightarrow>
        normalize_transactions (xs @ [(date, description, amount)] @ ys) statement_format
        = normalize_transactions (xs @ ys) statement_format)
   \<and> map (\<lambda>r. (Description r, Amount r))
        (normalize_transactions
           (map (\<lambda>(date, description, amount). (f date, description, amount)) transactions)
           statement_format)
     = map (\<lambda>r. (Description r, Amount r))
        (normalize_transactions transactions statement_format)"
proof -
  have 1: "list_all (\<lambda>r. Amount r \<noteq> None) (normalize_transactions transactions statement_format)"
    by (auto simp: normalize_transactions_rows list_all_iff normalized_row_def kept_def)
  have 2: "\<forall>r \<in> set (normalize_transactions transactions statement_format).
        \<exists>(date, description, amount) \<in> set transactions.
          Amount r = to_numeric (remove_commas amount) \<and>
          Date r = to_datetime (date_format statement_format) date"
    by (force simp: normalize_transactions_rows normalized_row_def)
  have 3: "normalize_transactions (xs @ [(date, description, amount)] @ ys) statement_format
        = normalize_transactions (xs @ ys) statement_format"
    if "to_numeric (remove_commas amount) = None"
    using that by (simp add: normalize_transactions_rows kept_def)
  have 4: "map (\<lambda>r. (Description r, Amount r))
        (normalize_transactions
           (map (\<lambda>(date, description, amount). (f date, description, amount)) transactions)
           statement_format)
     = map (\<lambda>r. (Description r, Amount r))
        (normalize_transactions transactions statement_format)"
  proof -
    have "kept statement_format = (\<lambda>t. to_numeric (remove_commas (snd (snd t))) \<noteq> None
        \<and> \<not> excluded statement_format (fst (snd t)))"
      by (auto simp: kept_def fun_eq_iff)
    then show ?thesis
      by (simp add: normalize_transactions_rows filter_map comp_def normalized_row_def
          split_beta)
  qed
  from 1 2 3 4 show ?thesis by blast
qed

theorem amounts_parsed_dates_kept_witness:
  "to_numeric (remove_commas ''n/a'') = None
   \<and> normalize_transactions [(''XYZ 05'', ''COFFEE'', ''4.50''), (''JAN 06'', ''TEA'', ''n/a'')]
       ''credit_card''
     = [\<lparr>Date = None, Description = ''COFFEE'', Amount = Some (float64_of 4.5)\<rparr>]"
proof -
  have n: "to_numeric (remove_commas ''n/a'') = None"
    by (rule amount_examples)
  have "normalize_transactions ([(''XYZ 05'', ''COFFEE'', ''4.50'')] @ [(''JAN 06'', ''TEA'', ''n/a'')] @ [])
       ''credit_card''
     = normalize_transactions ([(''XYZ 05'', ''COFFEE'', ''4.50'')] @ []) ''credit_card''"
    using amounts_parsed_dates_kept
      [of "[]" "''credit_card''" "''n/a''" "[(''XYZ 05'', ''COFFEE'', ''4.50'')]" "''JAN 06''" "''TEA''" "[]"] n
    by blast
  then show ?thesis
    using n by (simp add: normalize_transactions_rows row_eval)
qed

text \<open>
  The claim as first stated fails on the date and on the finite amount. The credit card
  line below matches the pattern, its date text \<^verbatim>\<open>XYZ 05\<close> names no month, and its row
  is in the output with the null date. The raw transaction with the amount text \<^verbatim>\<open>inf\<close>
  is in the output with an infinite amount.
\<close>

theorem unparsed_date_is_kept:
  "normalize_transactions
     (parse_credit_card_transactions [''001 XYZ 05 JAN 07 COFFEE 4.50'']) ''credit_card''
   = [\<lparr>Date = None, Description = ''COFFEE'', Amount = Some (float64_of 4.5)\<rparr>]
   \<and> to_datetime month_day ''XYZ 05'' = None
   \<and> normalize_transactions [(''JAN 05'', ''COFFEE'', ''inf'')] ''credit_card''
   = [\<lparr>Date = Some \<lparr>year = 1900, month = 1, day = 5\<rparr>, Description = ''COFFEE'',
       Amount = Some PosInf\<rparr>]"
  by (simp add: parse_credit_card_transactions_def parse_lines_emitted more_lines
      normalize_transactions_rows row_eval date_examples)

section \<open>The first category that matches\<close>

text \<open>
  Claim C6. \<^const>\<open>categorize_expenses\<close> gives every row the category \<^const>\<open>get_category\<close>
  gives its description, and \<^const>\<open>get_category\<close> gives a description the name of the first entry of the
  table, in its order, one of whose keywords occurs in the description when case is
  ignored: an entry that matches while no entry before it does gives the category,
  whatever the lengths of the keywords and wherever they occur. When no entry matches,
  the category is "Other", the name of the last entry, which has no keyword. The names
  of the table are distinct.
\<close>

theorem get_category_first_match:
  "get_category description =
     (case find (category_matches description) categories of
        Some (category, kws) \<Rightarrow> category
      | None \<Rightarrow> ''Other'')
   \<and> (\<forall>i < length categories.
        category_matches description (categories ! i) \<and>
        (\<forall>entry \<in> set (take i categories). \<not> category_matches description entry)
        \<longrightarrow> get_category description = fst (categories ! i))
   \<and> ((\<forall>entry \<in> set categories. \<not> category_matches description entry)
        \<longrightarrow> get_category description = ''Other'')
   \<and> distinct (map fst categories)
   \<and> last categories = (''Other'', [])
   \<and> map Category (categorize_expenses df) = map (\<lambda>r. get_category (Description r)) df"
proof -
  have "find (\<lambda>entry. keyword_loop (snd entry) description) categories
      = find (category_matches description) categories"
    by (rule find_cong) (simp_all add: category_matches_keyword_loop)
  then have eq: "get_category description =
     (case find (category_matches description) categories of
        Some (category, kws) \<Rightarrow> category
      | None \<Rightarrow> ''Other'')"
    by (simp add: get_category_def category_loop_find)
  have least: "get_category description = fst (categories ! i)"
    if "i < length categories" "category_matches description (categories ! i)"
      "\<forall>entry \<in> set (take i categories). \<not> category_matches description entry" for i
    using find_first [OF that] by (simp add: eq split: prod.splits)
  have none: "get_category description = ''Other''"
    if "\<forall>entry \<in> set categories. \<not> category_matches description entry"
  proof -
    have "find (category_matches description) categories = None"
      using that by (simp add: find_None_iff)
    then show ?thesis by (simp add: eq)
  qed
  have "distinct (map fst categories)" "last categories = (''Other'', [])"
    by (simp_all add: categories_def)
  moreover have "map Category (categorize_expenses df)
      = map (\<lambda>r. get_category (Description r)) df"
    by (simp add: categorize_expenses_def comp_def)
  ultimately show ?thesis using eq least none by blast
qed

theorem get_category_first_match_witness:
  "get_category ''Amazon Music'' = ''Entertainment''
   \<and> category_matches ''Amazon Music''
       (''Shopping'', [''petstock'', ''clothing'', ''electronics'', ''amazon''])
   \<and> get_category ''Hardware Store'' = ''Other''"
proof -
  have m: "category_matches ''Amazon Music'' (categories ! 5)"
    by code_simp
  have n: "\<forall>entry \<in> set (take 5 categories). \<not> category_matches ''Amazon Music'' entry"
    by code_simp
  have o: "\<forall>entry \<in> set categories. \<not> category_matches ''Hardware Store'' entry"
    by code_simp
  have s: "category_matches ''Amazon Music''
      (''Shopping'', [''petstock'', ''clothing'', ''electronics'', ''amazon''])"
    by code_simp
  have "get_category ''Amazon Music'' = fst (categories ! 5)"
    using get_category_first_match [of "''Amazon Music''" "[] :: (unit, unit) row list"] m n
    by (simp add: categories_def)
  moreover have "get_category ''Hardware Store'' = ''Other''"
    using get_category_first_match [of "''Hardware Store''" "[] :: (unit, unit) row list"] o
    by blast
  ultimately show ?thesis using s by (simp add: categories_def)
qed

section \<open>A credit card line from end to end\<close>

text \<open>
  Claim C5. The credit card pipeline on the single line
  \<^verbatim>\<open>001 JAN 05 JAN 07 NETFLIX.COM 15.99\<close>: the parser emits one transaction with the
  transaction date \<^verbatim>\<open>JAN 05\<close> (not the posting date), the normalizer keeps it with the
  date 5 January, the description NETFLIX.COM and the amount 15.99, and the categorizer
  gives it the category Subscriptions. The detector gives such a document the credit card
  format.
\<close>

theorem credit_card_netflix_scenario:
  "detect_statement_format [''001 JAN 05 JAN 07 NETFLIX.COM 15.99''] = ''credit_card''
   \<and> parse_credit_card_transactions [''001 JAN 05 JAN 07 NETFLIX.COM 15.99'']
     = [(''JAN 05'', ''NETFLIX.COM'', ''15.99'')]
   \<and> normalize_transactions [(''JAN 05'', ''NETFLIX.COM'', ''15.99'')] ''credit_card''
     = [\<lparr>Date = Some \<lparr>year = 1900, month = 1, day = 5\<rparr>, Description = ''NETFLIX.COM'',
         Amount = Some (float64_of 15.99)\<rparr>]
   \<and> categorize_expenses (normalize_transactions
       (parse_credit_card_transactions [''001 JAN 05 JAN 07 NETFLIX.COM 15.99'']) ''credit_card'')
     = [\<lparr>Date = Some \<lparr>year = 1900, month = 1, day = 5\<rparr>, Description = ''NETFLIX.COM'',
         Amount = Some (float64_of 15.99), Category = ''Subscriptions''\<rparr>]"
proof -
  have "detect_statement_format [''001 JAN 05 JAN 07 NETFLIX.COM 15.99''] = ''credit_card''"
    by (simp add: detect_statement_format_def)
  moreover have "parse_credit_card_transactions [''001 JAN 05 JAN 07 NETFLIX.COM 15.99'']
     = [(''JAN 05'', ''NETFLIX.COM'', ''15.99'')]"
    by (simp add: parse_credit_card_transactions_def parse_lines_def parse_step_def
        credit_card_lines)
  moreover have "normalize_transactions [(''JAN 05'', ''NETFLIX.COM'', ''15.99'')] ''credit_card''
     = [\<lparr>Date = Some \<lparr>year = 1900, month = 1, day = 5\<rparr>, Description = ''NETFLIX.COM'',
         Amount = Some (float64_of 15.99)\<rparr>]"
    by (simp add: normalize_transactions_rows row_eval)
  ultimately show ?thesis
    by (simp add: categorize_expenses_def get_category_examples)
qed

end
